theory Spec2Isabelle
  imports Complex_Main
begin

section \<open>Time-series merge buffer (SensorMonitoring, getChartData)\<close>

text \<open>
  The data of the sensor page. A \<open>SensorReading\<close> is a row of the table
  \<open>sensor_readings\<close> of shared/schema.ts: temperature and humidity are integers in
  tenths, the timestamp column is declared not null. A \<open>SensorDataPoint\<close> is what the
  chart code works on: the timestamp is a JavaScript Date and the two measurements are
  the integers divided by ten.

  A Date is modelled by the integer that \<open>getTime()\<close> returns for it (milliseconds since
  the epoch); the readings are taken to carry valid dates, as the schema says. The
  quotient \<open>r.temperature / 10\<close> is modelled by the exact rational number; the chart code
  only carries these numbers along and never compares them.
\<close>

record SensorReading =
  reading_id :: string
  roomId :: string
  reading_temperature :: int
  reading_humidity :: int
  reading_timestamp :: int

record SensorDataPoint =
  timestamp :: int
  temperature :: rat
  humidity :: rat

record ChartRow =
  time :: string
  chart_temperature :: rat
  chart_humidity :: rat

text \<open>
  \<open>readings.map(r => ({timestamp: new Date(r.timestamp), temperature: r.temperature / 10,
  humidity: r.humidity / 10}))\<close>: one element of \<open>dbData\<close>.
\<close>

definition toDataPoint :: "SensorReading \<Rightarrow> SensorDataPoint" where
  "toDataPoint r =
     \<lparr>timestamp = reading_timestamp r,
      temperature = of_int (reading_temperature r) / 10,
      humidity = of_int (reading_humidity r) / 10\<rparr>"

text \<open>
  \<open>Array.prototype.findIndex\<close>: the index of the first element that satisfies the
  predicate, and \<open>-1\<close> when there is none.
\<close>

fun findIndexFrom :: "('a \<Rightarrow> bool) \<Rightarrow> nat \<Rightarrow> 'a list \<Rightarrow> int" where
  "findIndexFrom p k [] = - 1"
| "findIndexFrom p k (x # xs) = (if p x then int k else findIndexFrom p (Suc k) xs)"

definition findIndex :: "('a \<Rightarrow> bool) \<Rightarrow> 'a list \<Rightarrow> int" where
  "findIndex p arr = findIndexFrom p 0 arr"

text \<open>
  \<open>Array.prototype.filter\<close> with the three-argument callback \<open>(item, index, arr)\<close>, and
  \<open>arr.slice(-n)\<close>, which keeps the last \<open>n\<close> elements (all of them when the array is
  shorter).
\<close>

definition filterWithIndex :: "('a \<Rightarrow> nat \<Rightarrow> 'a list \<Rightarrow> bool) \<Rightarrow> 'a list \<Rightarrow> 'a list" where
  "filterWithIndex f arr =
     map fst (filter (\<lambda>(item, index). f item index arr) (zip arr [0..<length arr]))"

definition sliceLast :: "nat \<Rightarrow> 'a list \<Rightarrow> 'a list" where
  "sliceLast n arr = drop (length arr - n) arr"

text \<open>
  The body of \<open>getChartData\<close>, statement by statement. \<open>combined\<close> is
  \<open>[...dbData, ...wsData].sort((a, b) => a.timestamp.getTime() - b.timestamp.getTime())\<close>;
  \<open>Array.prototype.sort\<close> is a stable sort, here by the integer key \<open>getTime()\<close>, which is
  what \<open>sort_key\<close> computes. \<open>unique\<close> is the filter that keeps an item when the first
  index holding its timestamp is its own index, followed by \<open>slice(-50)\<close>.
\<close>

definition combined :: "SensorDataPoint list \<Rightarrow> SensorDataPoint list \<Rightarrow> SensorDataPoint list" where
  "combined dbData wsData = sort_key timestamp (dbData @ wsData)"

definition firstOfTimestamp :: "SensorDataPoint \<Rightarrow> nat \<Rightarrow> SensorDataPoint list \<Rightarrow> bool" where
  "firstOfTimestamp item index arr =
     (findIndex (\<lambda>i. timestamp i = timestamp item) arr = int index)"

definition unique :: "SensorDataPoint list \<Rightarrow> SensorDataPoint list \<Rightarrow> SensorDataPoint list" where
  "unique dbData wsData = sliceLast 50 (filterWithIndex firstOfTimestamp (combined dbData wsData))"

text \<open>
  \<open>getChartData(roomId, readings)\<close>. \<open>sensorDataMap\<close> is the component's state, a map from
  room ids to the live points of the room; a room without an entry has no live points
  (\<open>sensorDataMap.get(roomId) || []\<close>). The label of a row is
  \<open>toLocaleTimeString('ko-KR', {hour: '2-digit', minute: '2-digit'})\<close>, a function of the
  browser that the model takes as the parameter \<open>toLocaleTimeString\<close>.
\<close>

definition getChartData ::
  "(int \<Rightarrow> string) \<Rightarrow> (string \<rightharpoonup> SensorDataPoint list) \<Rightarrow> string \<Rightarrow> SensorReading list \<Rightarrow> ChartRow list" where
  "getChartData toLocaleTimeString sensorDataMap room readings =
     (let wsData = (case sensorDataMap room of None \<Rightarrow> [] | Some points \<Rightarrow> points);
          dbData = map toDataPoint readings
      in map (\<lambda>d. \<lparr>time = toLocaleTimeString (timestamp d),
                     chart_temperature = temperature d,
                     chart_humidity = humidity d\<rparr>)
           (unique dbData wsData))"

text \<open>
  The handler \<open>onSensorReading\<close> of the push channel: the new point is appended to the
  last 49 live points of its room.
\<close>

definition onSensorReading ::
  "SensorReading \<Rightarrow> (string \<rightharpoonup> SensorDataPoint list) \<Rightarrow> (string \<rightharpoonup> SensorDataPoint list)" where
  "onSensorReading reading prev =
     (let dataPoint = toDataPoint reading;
          roomData = (case prev (roomId reading) of None \<Rightarrow> [] | Some points \<Rightarrow> points)
      in prev(roomId reading \<mapsto> sliceLast 49 roomData @ [dataPoint]))"

subsection \<open>The reference algorithm of the specification\<close>

text \<open>
  The merge as the specification words it: concatenate both sources, sort ascending by
  timestamp, remove every entry whose timestamp matches that of a previous entry (the
  first occurrence wins), then keep the most recent \<open>N\<close> entries. \<open>removeRepeats seen\<close>
  walks the sequence with the timestamps met so far.
\<close>

fun removeRepeats :: "int list \<Rightarrow> SensorDataPoint list \<Rightarrow> SensorDataPoint list" where
  "removeRepeats seen [] = []"
| "removeRepeats seen (p # ps) =
     (if timestamp p \<in> set seen then removeRepeats seen ps
      else p # removeRepeats (timestamp p # seen) ps)"

definition mostRecent :: "nat \<Rightarrow> 'a list \<Rightarrow> 'a list" where
  "mostRecent n xs = rev (take n (rev xs))"

definition merge_reference :: "SensorDataPoint list \<Rightarrow> SensorDataPoint list \<Rightarrow> SensorDataPoint list" where
  "merge_reference batch liveAppends =
     mostRecent 50 (removeRepeats [] (sort_key timestamp (batch @ liveAppends)))"

section \<open>Reconnecting push channel (useWebSocket)\<close>

text \<open>
  The hook keeps two React state cells, \<open>isConnected\<close> and \<open>reconnectAttempts\<close>, and two
  refs, \<open>wsRef\<close> and \<open>reconnectTimeoutRef\<close>. Every call of \<open>connect\<close> builds a WebSocket
  whose handlers are closures: they read the \<open>reconnectAttempts\<close> of the render in which
  that \<open>connect\<close> was made, not the state cell. A socket is therefore modelled with the
  counter its handlers hold, and a timer with the counter held by the callback it will
  run. Sockets and timers are named by their position in the order of their creation.
\<close>

datatype socket_state = CONNECTING | OPEN | CLOSING | CLOSED

record WebSocket =
  closure_attempts :: nat
  readyState :: socket_state

datatype timer_state = Pending | Fired | Cleared

record Timeout =
  delay :: nat
  timer_attempts :: nat
  timer_state :: timer_state

text \<open>
  \<open>connect_attempts\<close> is the \<open>reconnectAttempts\<close> held by the current \<open>connect\<close>, the one of
  the last render whose effect has run.
\<close>

record HookState =
  isConnected :: bool
  reconnectAttempts :: nat
  connect_attempts :: nat
  sockets :: "WebSocket list"
  timeouts :: "Timeout list"
  wsRef :: "nat option"
  reconnectTimeoutRef :: "nat option"

text \<open>
  \<open>Math.min(1000 * Math.pow(2, reconnectAttempts), 30000)\<close>. On natural numbers the
  power never overflows; in JavaScript it becomes \<open>Infinity\<close> for huge exponents, and the
  minimum is 30000 either way.
\<close>

definition timeout :: "nat \<Rightarrow> nat" where
  "timeout attempts = min (1000 * 2 ^ attempts) 30000"

text \<open>
  \<open>connect\<close>, made in a render where \<open>reconnectAttempts\<close> is \<open>attempts\<close>: it builds a socket,
  stores it in \<open>wsRef\<close> and installs the handlers, which hold \<open>attempts\<close>.
\<close>

definition connect :: "nat \<Rightarrow> HookState \<Rightarrow> HookState" where
  "connect attempts s =
     s\<lparr>sockets := sockets s @ [\<lparr>closure_attempts = attempts, readyState = CONNECTING\<rparr>],
       wsRef := Some (length (sockets s))\<rparr>"

text \<open>
  The handlers. \<open>ws_onclose\<close> computes the delay from the counter of its closure and keeps
  the new timer in \<open>reconnectTimeoutRef\<close>. The callback of the timer, \<open>reconnectTimer\<close>,
  increments the state cell and calls \<open>connect\<close>: the \<open>connect\<close> of its own closure, which
  holds the same counter as the handler that scheduled it. \<open>ws.onerror\<close> only logs.
\<close>

definition ws_onopen :: "HookState \<Rightarrow> HookState" where
  "ws_onopen s = s\<lparr>isConnected := True, reconnectAttempts := 0\<rparr>"

definition ws_onclose :: "nat \<Rightarrow> HookState \<Rightarrow> HookState" where
  "ws_onclose attempts s =
     s\<lparr>isConnected := False,
       timeouts := timeouts s @
         [\<lparr>delay = timeout attempts, timer_attempts = attempts, timer_state = Pending\<rparr>],
       reconnectTimeoutRef := Some (length (timeouts s))\<rparr>"

definition reconnectTimer :: "nat \<Rightarrow> HookState \<Rightarrow> HookState" where
  "reconnectTimer attempts s = connect attempts (s\<lparr>reconnectAttempts := reconnectAttempts s + 1\<rparr>)"

text \<open>
  The cleanup of the effect: \<open>clearTimeout(reconnectTimeoutRef.current)\<close>, which cancels
  the timer when it is still pending, and \<open>wsRef.current.close()\<close>, which starts the closing
  of a socket that is connecting or open. Neither ref is reset, and the handlers stay on
  the socket.
\<close>

definition clearTimeout :: "nat \<Rightarrow> HookState \<Rightarrow> HookState" where
  "clearTimeout j s =
     (if j < length (timeouts s) \<and> timer_state (timeouts s ! j) = Pending
      then s\<lparr>timeouts := (timeouts s)[j := (timeouts s ! j)\<lparr>timer_state := Cleared\<rparr>]\<rparr>
      else s)"

definition ws_close :: "nat \<Rightarrow> HookState \<Rightarrow> HookState" where
  "ws_close i s =
     (if i < length (sockets s)
         \<and> (readyState (sockets s ! i) = CONNECTING \<or> readyState (sockets s ! i) = OPEN)
      then s\<lparr>sockets := (sockets s)[i := (sockets s ! i)\<lparr>readyState := CLOSING\<rparr>]\<rparr>
      else s)"

definition cleanup :: "HookState \<Rightarrow> HookState" where
  "cleanup s =
     (let s1 = (case reconnectTimeoutRef s of None \<Rightarrow> s | Some j \<Rightarrow> clearTimeout j s)
      in case wsRef s1 of None \<Rightarrow> s1 | Some i \<Rightarrow> ws_close i s1)"

text \<open>
  The render that follows a handler. \<open>connect\<close> is a \<open>useCallback\<close> with \<open>reconnectAttempts\<close>
  among its dependencies, and the effect depends on \<open>connect\<close>: when the counter differs
  from the one the current \<open>connect\<close> holds, the cleanup of the effect runs and the effect
  calls the new \<open>connect\<close>. The other dependencies (the callbacks of the options and the
  endpoint) are taken not to change, which is the case most favourable to the hook.
  \<open>mount\<close> is the first render, where the effect calls \<open>connect\<close> with the counter 0.
\<close>

definition rerender :: "HookState \<Rightarrow> HookState" where
  "rerender s =
     (if reconnectAttempts s = connect_attempts s then s
      else connect (reconnectAttempts s) ((cleanup s)\<lparr>connect_attempts := reconnectAttempts s\<rparr>))"

definition mount :: HookState where
  "mount =
     connect 0
       \<lparr>isConnected = False, reconnectAttempts = 0, connect_attempts = 0, sockets = [],
        timeouts = [], wsRef = None, reconnectTimeoutRef = None\<rparr>"

text \<open>
  What the browser can deliver: the open of a socket that is connecting, the close of a
  socket that is not closed yet (a failure of the connection, or the end of a closing
  that \<open>close()\<close> started), the firing of a pending timer. \<open>step\<close> runs the handler with the
  counter of its closure and then the render; an event that cannot happen in the state
  gives \<open>None\<close>.
\<close>

datatype hook_event = SocketOpens nat | SocketCloses nat | TimerFires nat

fun step :: "HookState \<Rightarrow> hook_event \<Rightarrow> HookState option" where
  "step s (SocketOpens i) =
     (if i < length (sockets s) \<and> readyState (sockets s ! i) = CONNECTING
      then Some (rerender (ws_onopen
             (s\<lparr>sockets := (sockets s)[i := (sockets s ! i)\<lparr>readyState := OPEN\<rparr>]\<rparr>)))
      else None)"
| "step s (SocketCloses i) =
     (if i < length (sockets s) \<and> readyState (sockets s ! i) \<noteq> CLOSED
      then Some (rerender (ws_onclose (closure_attempts (sockets s ! i))
             (s\<lparr>sockets := (sockets s)[i := (sockets s ! i)\<lparr>readyState := CLOSED\<rparr>]\<rparr>)))
      else None)"
| "step s (TimerFires j) =
     (if j < length (timeouts s) \<and> timer_state (timeouts s ! j) = Pending
      then Some (rerender (reconnectTimer (timer_attempts (timeouts s ! j))
             (s\<lparr>timeouts := (timeouts s)[j := (timeouts s ! j)\<lparr>timer_state := Fired\<rparr>]\<rparr>)))
      else None)"

fun run :: "HookState \<Rightarrow> hook_event list \<Rightarrow> HookState option" where
  "run s [] = Some s"
| "run s (e # es) = (case step s e of None \<Rightarrow> None | Some s' \<Rightarrow> run s' es)"

subsection \<open>Inbound messages\<close>

text \<open>
  The values \<open>JSON.parse\<close> can return. An object is the list of its members in the order
  of the text; a repeated key takes its last value. Of a number only being zero matters
  here.
\<close>

datatype json =
    JNull
  | JBool bool
  | JNumber rat
  | JString string
  | JArray "json list"
  | JObject "(string \<times> json) list"

text \<open>
  Reading a property of a parsed value that is not \<open>null\<close>: \<open>None\<close> is \<open>undefined\<close>.
  Only \<open>type\<close> and \<open>data\<close> are read, which no string, number, boolean or array has. On
  \<open>null\<close> the read throws a TypeError, which \<open>dispatch\<close> handles before it reads.
\<close>

fun getProp :: "string \<Rightarrow> json \<Rightarrow> json option" where
  "getProp k (JObject members) = map_of (rev members) k"
| "getProp k v = None"

fun truthy :: "json option \<Rightarrow> bool" where
  "truthy None = False"
| "truthy (Some JNull) = False"
| "truthy (Some (JBool b)) = b"
| "truthy (Some (JNumber n)) = (n \<noteq> 0)"
| "truthy (Some (JString s)) = (s \<noteq> [])"
| "truthy (Some (JArray vs)) = True"
| "truthy (Some (JObject members)) = True"

text \<open>
  A registered callback is a function of the message data that returns or throws. The
  handler's effects are the calls of the callbacks and of the console, in order.
\<close>

datatype outcome = Returned | Threw

record UseWebSocketOptions =
  onSensorReading_cb :: "(json \<Rightarrow> outcome) option"
  onAlert_cb :: "(json \<Rightarrow> outcome) option"
  onLifecycleUpdate_cb :: "(json \<Rightarrow> outcome) option"

datatype effect =
    Called_onSensorReading json
  | Called_onAlert json
  | Called_onLifecycleUpdate json
  | ConsoleLog
  | ConsoleError

fun isCall :: "effect \<Rightarrow> bool" where
  "isCall (Called_onSensorReading d) = True"
| "isCall (Called_onAlert d) = True"
| "isCall (Called_onLifecycleUpdate d) = True"
| "isCall ConsoleLog = False"
| "isCall ConsoleError = False"

text \<open>
  \<open>if (callback && message.data) callback(message.data)\<close>: one case of the switch.
\<close>

definition deliver ::
  "(json \<Rightarrow> effect) \<Rightarrow> (json \<Rightarrow> outcome) option \<Rightarrow> json \<Rightarrow> effect list \<times> outcome" where
  "deliver called callback message =
     (case callback of
        None \<Rightarrow> ([], Returned)
      | Some f \<Rightarrow>
          (case getProp ''data'' message of
             None \<Rightarrow> ([], Returned)
           | Some d \<Rightarrow> if truthy (Some d) then ([called d], f d) else ([], Returned)))"

text \<open>
  The statements of the \<open>try\<close> block after the parse: the switch on \<open>message.type\<close>. The
  result is the effects made and whether an exception left the block.
\<close>

definition dispatch :: "UseWebSocketOptions \<Rightarrow> json \<Rightarrow> effect list \<times> outcome" where
  "dispatch options message =
     (if message = JNull then ([], Threw)
      else if getProp ''type'' message = Some (JString ''sensor_reading'')
        then deliver Called_onSensorReading (onSensorReading_cb options) message
      else if getProp ''type'' message = Some (JString ''alert'')
        then deliver Called_onAlert (onAlert_cb options) message
      else if getProp ''type'' message = Some (JString ''lifecycle_update'')
        then deliver Called_onLifecycleUpdate (onLifecycleUpdate_cb options) message
      else if getProp ''type'' message = Some (JString ''connected'')
        then ([ConsoleLog], Returned)
      else ([], Returned))"

text \<open>
  \<open>ws.onmessage\<close>. \<open>JSON_parse\<close> is the parser of the browser, \<open>None\<close> where it throws a
  SyntaxError. Whatever leaves the \<open>try\<close> block is caught and logged.
\<close>

definition ws_onmessage ::
  "(string \<Rightarrow> json option) \<Rightarrow> UseWebSocketOptions \<Rightarrow> string \<Rightarrow> effect list \<times> outcome" where
  "ws_onmessage JSON_parse options event_data =
     (case JSON_parse event_data of
        None \<Rightarrow> ([ConsoleError], Returned)
      | Some message \<Rightarrow>
          (case dispatch options message of
             (effects, Threw) \<Rightarrow> (effects @ [ConsoleError], Returned)
           | (effects, Returned) \<Rightarrow> (effects, Returned)))"

section \<open>Request cache, polling and mutations\<close>

text \<open>
  What a promise settles to: the value it resolves with, or the message of the error it
  rejects with.
\<close>

datatype 'a settled = Resolved 'a | Rejected string

text \<open>
  Modelled from the spec: the Request Cache Layer. The cache is the query client of the
  query library, configured in lib/queryClient, and neither is among the sources at hand; the model
  follows sections 4.3 and 4.4 of the specification. A key is the array of strings given
  as \<open>queryKey\<close>. An entry holds the cached value and whether it has been marked stale.
\<close>

record 'v QueryState =
  cached :: 'v
  isInvalidated :: bool

type_synonym 'v QueryCache = "string list \<rightharpoonup> 'v QueryState"

text \<open>
  Modelled from the spec: \<open>invalidate(keySet)\<close> marks the listed keys stale.
\<close>

definition invalidateQueries :: "string list list \<Rightarrow> 'v QueryCache \<Rightarrow> 'v QueryCache" where
  "invalidateQueries keySet cache =
     (\<lambda>key. case cache key of
              None \<Rightarrow> None
            | Some q \<Rightarrow> if key \<in> set keySet then Some (q\<lparr>isInvalidated := True\<rparr>) else Some q)"

text \<open>
  Modelled from the spec: the result of a fetch enters the cache when the fetch succeeds,
  and a fetch that fails leaves the previous cached value in place.
\<close>

definition storeFetched :: "string list \<Rightarrow> 'v settled \<Rightarrow> 'v QueryCache \<Rightarrow> 'v QueryCache" where
  "storeFetched key result cache =
     (case result of
        Resolved v \<Rightarrow> cache(key \<mapsto> \<lparr>cached = v, isInvalidated = False\<rparr>)
      | Rejected e \<Rightarrow> cache)"

text \<open>
  Modelled from the spec: \<open>read(key)\<close> returns the cached value, or triggers a fetch when
  there is none or when the key has been marked stale. The result is the value the
  reader sees and the cache afterwards.
\<close>

definition readQuery ::
  "(string list \<Rightarrow> 'v settled) \<Rightarrow> string list \<Rightarrow> 'v QueryCache \<Rightarrow> 'v option \<times> 'v QueryCache" where
  "readQuery backend key cache =
     (let fresh = (case cache key of None \<Rightarrow> False | Some q \<Rightarrow> \<not> isInvalidated q);
          cache' = (if fresh then cache else storeFetched key (backend key) cache)
      in (map_option cached (cache' key), cache'))"

subsection \<open>The room status mutation (RoomManagement)\<close>

text \<open>
  The toasts of the page, by what they say: the success toast, the toast
  \<open>Unauthorized\<close>, and the failure toast, whose description is \<open>error.message\<close> or, when
  that is empty, the fixed text of the page.
\<close>

datatype description = ErrorMessage string | DefaultFailureText

datatype toast = StatusUpdatedToast | UnauthorizedToast | UpdateFailedToast description

record 'v PageState =
  queryClient :: "'v QueryCache"
  toasts :: "toast list"
  redirect :: "string option"

text \<open>
  \<open>onSuccess\<close> and \<open>onError\<close> of \<open>updateRoomStatusMutation\<close>. \<open>ROOMS_LIST\<close> is
  \<open>API_ENDPOINTS.ROOMS.LIST\<close>, which depends on the deployment; \<open>isUnauthorizedError\<close> is
  the test of lib/authUtils, which is not among the sources at hand. Both are parameters.
\<close>

definition updateRoomStatus_onSuccess :: "string \<Rightarrow> 'v PageState \<Rightarrow> 'v PageState" where
  "updateRoomStatus_onSuccess ROOMS_LIST st =
     st\<lparr>toasts := toasts st @ [StatusUpdatedToast],
        queryClient := invalidateQueries [[ROOMS_LIST]] (queryClient st)\<rparr>"

definition updateRoomStatus_onError :: "(string \<Rightarrow> bool) \<Rightarrow> string \<Rightarrow> 'v PageState \<Rightarrow> 'v PageState" where
  "updateRoomStatus_onError isUnauthorizedError error st =
     (if isUnauthorizedError error
      then st\<lparr>toasts := toasts st @ [UnauthorizedToast], redirect := Some ''/api/login''\<rparr>
      else st\<lparr>toasts := toasts st @
             [UpdateFailedToast (if error \<noteq> [] then ErrorMessage error else DefaultFailureText)]\<rparr>)"

text \<open>
  Modelled from the spec: the order of a mutation and its callbacks, which the mutation
  hook of the query library decides: \<open>onSuccess\<close> runs once the success response has been
  observed, \<open>onError\<close> once the failure has. The mutation function of
  \<open>updateRoomStatusMutation\<close> is \<open>apiRequest("PATCH", ...)\<close>, of lib/queryClient; what its
  promise settles to is the parameter \<open>response\<close>.
\<close>

definition updateRoomStatus_mutate ::
  "(string \<Rightarrow> bool) \<Rightarrow> string \<Rightarrow> 'r settled \<Rightarrow> 'v PageState \<Rightarrow> 'v PageState" where
  "updateRoomStatus_mutate isUnauthorizedError ROOMS_LIST response st =
     (case response of
        Resolved r \<Rightarrow> updateRoomStatus_onSuccess ROOMS_LIST st
      | Rejected error \<Rightarrow> updateRoomStatus_onError isUnauthorizedError error st)"

subsection \<open>The polling fetchers (CustomerApp, SensorMonitoring)\<close>

text \<open>
  What \<open>fetch\<close> gives: a rejection (network error), or a response with its \<open>ok\<close> flag and
  its body, \<open>None\<close> when the body is not JSON (\<open>response.json()\<close> rejects).
\<close>

datatype 'b fetched = NetworkError | Response bool "'b option"


record RoomLifecycle =
  currentStage :: string













subsection \<open>Outbound requests written with fetch\<close>

text \<open>
  A request as \<open>fetch\<close> receives it: method, URL, the headers of the \<open>init\<close> argument and
  the members of the JSON body.
\<close>

record HttpRequest =
  http_method :: string
  url :: string
  headers :: "(string \<times> string) list"
  body :: "(string \<times> string) list option"

record SensorAlert =
  alert_id :: string
  alert_message :: string

text \<open>
  \<open>dismissAlert\<close> of SensorMonitoring: \<open>await fetch(`/api/alerts/${alertId}/dismiss`,
  {method: 'PATCH'})\<close>, then the alert is removed from the list; a rejection of the fetch
  is caught and logged. The response is not looked at. The result is the requests sent
  and the alerts afterwards.
\<close>

definition dismissAlert_request :: "string \<Rightarrow> HttpRequest" where
  "dismissAlert_request alertId =
     \<lparr>http_method = ''PATCH'', url = ''/api/alerts/'' @ alertId @ ''/dismiss'', headers = [], body = None\<rparr>"

definition dismissAlert ::
  "(HttpRequest \<Rightarrow> unit fetched) \<Rightarrow> string \<Rightarrow> SensorAlert list \<Rightarrow> HttpRequest list \<times> SensorAlert list" where
  "dismissAlert fetch alertId alerts =
     (case fetch (dismissAlert_request alertId) of
        NetworkError \<Rightarrow> ([dismissAlert_request alertId], alerts)
      | Response ok b \<Rightarrow>
          ([dismissAlert_request alertId], filter (\<lambda>a. alert_id a \<noteq> alertId) alerts))"

text \<open>
  \<open>handlePhoneSearch\<close> of CustomerApp: the two length checks, then the request to
  \<open>API_ENDPOINTS.CUSTOMERS.VERIFY_PIN\<close> (a parameter, as it depends on the deployment).
  The result is the requests sent.
\<close>

definition handlePhoneSearch_request :: "string \<Rightarrow> string \<Rightarrow> string \<Rightarrow> HttpRequest" where
  "handlePhoneSearch_request VERIFY_PIN customerPhone customerPin =
     \<lparr>http_method = ''POST'', url = VERIFY_PIN,
      headers = [(''Content-Type'', ''application/json'')],
      body = Some [(''phone'', customerPhone), (''pin'', customerPin)]\<rparr>"

definition handlePhoneSearch :: "string \<Rightarrow> string \<Rightarrow> string \<Rightarrow> HttpRequest list" where
  "handlePhoneSearch VERIFY_PIN customerPhone customerPin =
     (if length customerPhone < 10 then []
      else if length customerPin \<noteq> 4 then []
      else [handlePhoneSearch_request VERIFY_PIN customerPhone customerPin])"

text \<open>
  The credential of a request: the value of its \<open>Authorization\<close> header when that starts
  with \<open>Bearer \<close> (header names do not distinguish case; the requests above write no such header).
\<close>

definition bearerCredential :: "HttpRequest \<Rightarrow> string option" where
  "bearerCredential request =
     (case map_of (headers request) ''Authorization'' of
        None \<Rightarrow> None
      | Some v \<Rightarrow> if take 7 v = ''Bearer '' then Some (drop 7 v) else None)"

section \<open>Properties of the merge buffer\<close>

subsection \<open>findIndex\<close>

lemma findIndexFrom_none:
  "\<forall>y \<in> set pre. \<not> p y \<Longrightarrow> findIndexFrom p k (pre @ ys) = findIndexFrom p (k + length pre) ys"
  by (induction pre arbitrary: k) simp_all

lemma findIndexFrom_some:
  "\<exists>y \<in> set pre. p y \<Longrightarrow> findIndexFrom p k (pre @ ys) < int (k + length pre)"
proof (induction pre arbitrary: k)
  case Nil
  then show ?case by simp
next
  case (Cons a pre)
  show ?case
  proof (cases "p a")
    case True
    then show ?thesis by simp
  next
    case False
    with Cons.prems have "\<exists>y \<in> set pre. p y" by simp
    from Cons.IH [OF this, of "Suc k"] False show ?thesis by simp
  qed
qed

lemma firstOfTimestamp_iff:
  "firstOfTimestamp x (length pre) (pre @ x # xs) \<longleftrightarrow> timestamp x \<notin> set (map timestamp pre)"
proof (cases "timestamp x \<in> set (map timestamp pre)")
  case True
  then have "\<exists>y \<in> set pre. timestamp y = timestamp x" by auto
  from findIndexFrom_some [of pre "\<lambda>i. timestamp i = timestamp x" 0 "x # xs", OF this]
  have "findIndex (\<lambda>i. timestamp i = timestamp x) (pre @ x # xs) < int (length pre)"
    by (simp add: findIndex_def)
  then have "\<not> firstOfTimestamp x (length pre) (pre @ x # xs)"
    by (simp add: firstOfTimestamp_def)
  with True show ?thesis by simp
next
  case False
  have none: "\<forall>y \<in> set pre. \<not> timestamp y = timestamp x"
  proof (intro ballI notI)
    fix y
    assume "y \<in> set pre" and "timestamp y = timestamp x"
    then have "timestamp x \<in> timestamp ` set pre" by (metis imageI)
    with False show False by simp
  qed
  have "findIndexFrom (\<lambda>i. timestamp i = timestamp x) 0 (pre @ x # xs)
      = findIndexFrom (\<lambda>i. timestamp i = timestamp x) (0 + length pre) (x # xs)"
    using none by (rule findIndexFrom_none)
  also have "\<dots> = int (length pre)" by simp
  finally have "firstOfTimestamp x (length pre) (pre @ x # xs)"
    by (simp add: firstOfTimestamp_def findIndex_def)
  with False show ?thesis by simp
qed

subsection \<open>The index filter removes the repeats\<close>

lemma removeRepeats_seen_set:
  "set seen = set seen' \<Longrightarrow> removeRepeats seen ps = removeRepeats seen' ps"
proof (induction ps arbitrary: seen seen')
  case Nil
  show ?case by simp
next
  case (Cons p ps)
  from Cons.prems have mem: "timestamp p \<in> set seen \<longleftrightarrow> timestamp p \<in> set seen'" by simp
  from Cons.prems have "set (timestamp p # seen) = set (timestamp p # seen')" by simp
  then have grown: "removeRepeats (timestamp p # seen) ps = removeRepeats (timestamp p # seen') ps"
    by (rule Cons.IH)
  have same: "removeRepeats seen ps = removeRepeats seen' ps"
    using Cons.prems by (rule Cons.IH)
  show ?case by (simp add: mem grown same)
qed

lemma filter_zip_removeRepeats:
  "map fst (filter (\<lambda>(item, index). firstOfTimestamp item index (pre @ xs))
       (zip xs [length pre ..< length pre + length xs]))
   = removeRepeats (map timestamp pre) xs"
proof (induction xs arbitrary: pre)
  case Nil
  show ?case by simp
next
  case (Cons x xs)
  have upt: "[length pre ..< length pre + length (x # xs)]
      = length pre # [length (pre @ [x]) ..< length (pre @ [x]) + length xs]"
    using upt_conv_Cons [of "length pre" "length pre + Suc (length xs)"] by simp
  have arr: "pre @ x # xs = (pre @ [x]) @ xs" by simp
  have rest: "map fst (filter (\<lambda>(item, index). firstOfTimestamp item index (pre @ x # xs))
       (zip xs [length (pre @ [x]) ..< length (pre @ [x]) + length xs]))
     = removeRepeats (map timestamp (pre @ [x])) xs"
    unfolding arr by (rule Cons.IH)
  show ?case
  proof (cases "timestamp x \<in> set (map timestamp pre)")
    case True
    then have same: "set (map timestamp (pre @ [x])) = set (map timestamp pre)" by auto
    from True have "\<not> firstOfTimestamp x (length pre) (pre @ x # xs)"
      by (simp only: firstOfTimestamp_iff) simp
    with True show ?thesis
      unfolding upt using rest removeRepeats_seen_set [OF same, of xs] by simp
  next
    case False
    have same: "set (map timestamp (pre @ [x])) = set (timestamp x # map timestamp pre)" by auto
    from False have "firstOfTimestamp x (length pre) (pre @ x # xs)"
      by (simp only: firstOfTimestamp_iff) simp
    with False show ?thesis
      unfolding upt using rest removeRepeats_seen_set [OF same, of xs] by simp
  qed
qed

lemma filterWithIndex_removeRepeats:
  "filterWithIndex firstOfTimestamp arr = removeRepeats [] arr"
  using filter_zip_removeRepeats [of "[]" arr] by (simp add: filterWithIndex_def)

lemma unique_removeRepeats:
  "unique dbData wsData = sliceLast 50 (removeRepeats [] (sort_key timestamp (dbData @ wsData)))"
  by (simp add: unique_def combined_def filterWithIndex_removeRepeats)

subsection \<open>Order, distinctness and length\<close>

lemma removeRepeats_subset: "set (removeRepeats seen ps) \<subseteq> set ps"
  by (induction ps arbitrary: seen) auto

lemma removeRepeats_avoids_seen:
  "q \<in> set (removeRepeats seen ps) \<Longrightarrow> timestamp q \<notin> set seen"
proof (induction ps arbitrary: seen)
  case Nil
  then show ?case by simp
next
  case (Cons p ps)
  show ?case
  proof (cases "timestamp p \<in> set seen")
    case True
    with Cons.prems have "q \<in> set (removeRepeats seen ps)" by simp
    then show ?thesis by (rule Cons.IH)
  next
    case False
    with Cons.prems have "q = p \<or> q \<in> set (removeRepeats (timestamp p # seen) ps)" by simp
    then show ?thesis
    proof
      assume "q = p"
      with False show ?thesis by simp
    next
      assume "q \<in> set (removeRepeats (timestamp p # seen) ps)"
      then have "timestamp q \<notin> set (timestamp p # seen)" by (rule Cons.IH)
      then show ?thesis by simp
    qed
  qed
qed

lemma removeRepeats_sorted:
  "sorted (map timestamp ps) \<Longrightarrow> sorted (map timestamp (removeRepeats seen ps))"
proof (induction ps arbitrary: seen)
  case Nil
  show ?case by simp
next
  case (Cons p ps)
  from Cons.prems have tail: "sorted (map timestamp ps)"
    and le: "\<forall>q \<in> set ps. timestamp p \<le> timestamp q" by simp_all
  from le removeRepeats_subset [of "timestamp p # seen" ps]
  have "\<forall>q \<in> set (removeRepeats (timestamp p # seen) ps). timestamp p \<le> timestamp q" by blast
  with Cons.IH [OF tail] show ?case by simp
qed

lemma removeRepeats_distinct: "distinct (map timestamp (removeRepeats seen ps))"
proof (induction ps arbitrary: seen)
  case Nil
  show ?case by simp
next
  case (Cons p ps)
  have "timestamp p \<notin> timestamp ` set (removeRepeats (timestamp p # seen) ps)"
  proof
    assume "timestamp p \<in> timestamp ` set (removeRepeats (timestamp p # seen) ps)"
    then obtain q where q: "q \<in> set (removeRepeats (timestamp p # seen) ps)"
      and eq: "timestamp p = timestamp q" by auto
    from removeRepeats_avoids_seen [OF q] eq show False by simp
  qed
  with Cons.IH show ?case by simp
qed

lemma sliceLast_length: "length (sliceLast n xs) \<le> n"
  by (simp add: sliceLast_def)

lemma sliceLast_sorted: "sorted (map f xs) \<Longrightarrow> sorted (map f (sliceLast n xs))"
  by (simp add: sliceLast_def drop_map [symmetric])

lemma sliceLast_distinct: "distinct (map f xs) \<Longrightarrow> distinct (map f (sliceLast n xs))"
  by (simp add: sliceLast_def drop_map [symmetric])

lemma unique_sorted: "sorted (map timestamp (unique dbData wsData))"
  unfolding unique_removeRepeats
  by (intro sliceLast_sorted removeRepeats_sorted sorted_sort_key)

lemma unique_distinct: "distinct (map timestamp (unique dbData wsData))"
  unfolding unique_removeRepeats
  by (intro sliceLast_distinct removeRepeats_distinct)

lemma unique_length: "length (unique dbData wsData) \<le> 50"
  by (simp add: unique_def sliceLast_length)

subsection \<open>Fixed points of the merge\<close>

lemma removeRepeats_id:
  "distinct (map timestamp ps) \<Longrightarrow> set (map timestamp ps) \<inter> set seen = {}
    \<Longrightarrow> removeRepeats seen ps = ps"
proof (induction ps arbitrary: seen)
  case Nil
  show ?case by simp
next
  case (Cons p ps)
  from Cons.prems have fresh: "timestamp p \<notin> set seen" by auto
  from Cons.prems have "distinct (map timestamp ps)"
    and "set (map timestamp ps) \<inter> set (timestamp p # seen) = {}" by auto
  then have "removeRepeats (timestamp p # seen) ps = ps" by (rule Cons.IH)
  with fresh show ?case by simp
qed

lemma sliceLast_short: "length xs \<le> n \<Longrightarrow> sliceLast n xs = xs"
  by (simp add: sliceLast_def)

lemma unique_fixed:
  assumes "sorted (map timestamp ps)" and "distinct (map timestamp ps)" and "length ps \<le> 50"
  shows "unique ps [] = ps" and "unique [] ps = ps"
  using assms
  by (simp_all add: unique_removeRepeats sort_key_id_if_sorted removeRepeats_id sliceLast_short)

lemma mostRecent_sliceLast: "mostRecent n xs = sliceLast n xs"
  by (simp add: mostRecent_def sliceLast_def take_rev)

subsection \<open>Which entry survives among equal timestamps\<close>

lemma find_by_filter: "find P xs = (case filter P xs of [] \<Rightarrow> None | x # _ \<Rightarrow> Some x)"
  by (induction xs) simp_all

lemma find_sort_key: "find (\<lambda>q. f q = k) (sort_key f xs) = find (\<lambda>q. f q = k) xs"
  by (simp add: find_by_filter sort_key_stable)

lemma find_append_first:
  "find P (xs @ ys) = (case find P xs of None \<Rightarrow> find P ys | Some x \<Rightarrow> Some x)"
  by (induction xs) simp_all

lemma removeRepeats_first:
  "p \<in> set (removeRepeats seen ps) \<Longrightarrow> find (\<lambda>q. timestamp q = timestamp p) ps = Some p"
proof (induction ps arbitrary: seen)
  case Nil
  then show ?case by simp
next
  case (Cons x ps)
  show ?case
  proof (cases "timestamp x \<in> set seen")
    case True
    with Cons.prems have mem: "p \<in> set (removeRepeats seen ps)" by simp
    from removeRepeats_avoids_seen [OF mem] True have "timestamp x \<noteq> timestamp p" by auto
    with Cons.IH [OF mem] show ?thesis by simp
  next
    case False
    with Cons.prems have "p = x \<or> p \<in> set (removeRepeats (timestamp x # seen) ps)" by simp
    then show ?thesis
    proof
      assume "p = x"
      then show ?thesis by simp
    next
      assume mem: "p \<in> set (removeRepeats (timestamp x # seen) ps)"
      from removeRepeats_avoids_seen [OF mem] have "timestamp x \<noteq> timestamp p" by auto
      with Cons.IH [OF mem] show ?thesis by simp
    qed
  qed
qed

lemma sliceLast_subset: "set (sliceLast n xs) \<subseteq> set xs"
  by (simp add: sliceLast_def set_drop_subset)

lemma unique_first_of_inputs:
  assumes "p \<in> set (unique dbData wsData)"
  shows "find (\<lambda>q. timestamp q = timestamp p) (dbData @ wsData) = Some p"
proof -
  have "set (unique dbData wsData) \<subseteq> set (removeRepeats [] (sort_key timestamp (dbData @ wsData)))"
    unfolding unique_removeRepeats by (rule sliceLast_subset)
  with assms have "p \<in> set (removeRepeats [] (sort_key timestamp (dbData @ wsData)))"
    by (rule rev_subsetD)
  then have "find (\<lambda>q. timestamp q = timestamp p) (sort_key timestamp (dbData @ wsData)) = Some p"
    by (rule removeRepeats_first)
  then show ?thesis by (simp only: find_sort_key)
qed

lemma find_member: "x \<in> set xs \<Longrightarrow> P x \<Longrightarrow> find P xs \<noteq> None"
  by (induction xs) auto

lemma removeRepeats_timestamps:
  "timestamp ` set (removeRepeats seen ps) = timestamp ` set ps - set seen"
proof (induction ps arbitrary: seen)
  case Nil
  show ?case by simp
next
  case (Cons x ps)
  show ?case
  proof (cases "timestamp x \<in> set seen")
    case True
    have "timestamp ` set ps - set seen = timestamp ` set (x # ps) - set seen"
      using True by auto
    with True show ?thesis by (simp add: Cons.IH)
  next
    case False
    have "insert (timestamp x) (timestamp ` set ps - set (timestamp x # seen))
        = timestamp ` set (x # ps) - set seen"
      using False by auto
    with False show ?thesis by (simp add: Cons.IH)
  qed
qed

lemma unique_keeps_all_when_few:
  assumes "card (timestamp ` set (dbData @ wsData)) \<le> 50"
  shows "timestamp ` set (unique dbData wsData) = timestamp ` set (dbData @ wsData)"
proof -
  let ?rr = "removeRepeats [] (sort_key timestamp (dbData @ wsData))"
  have keys: "timestamp ` set ?rr = timestamp ` set (dbData @ wsData)"
    by (simp add: removeRepeats_timestamps)
  have "length ?rr = length (map timestamp ?rr)" by simp
  also have "\<dots> = card (set (map timestamp ?rr))"
    by (rule distinct_card [symmetric]) (rule removeRepeats_distinct)
  also have "\<dots> = card (timestamp ` set (dbData @ wsData))"
    using keys by simp
  finally have "length ?rr \<le> 50" using assms by simp
  then have "unique dbData wsData = ?rr"
    unfolding unique_removeRepeats by (rule sliceLast_short)
  with keys show ?thesis by simp
qed

section \<open>Claims about the merge buffer\<close>

text \<open>
  Claim C1. For every batch of historical readings and every list of live points of a
  room, the merged sequence that \<open>getChartData\<close> builds (its local \<open>unique\<close>, from which
  the chart rows are made one for one) is non-decreasing in timestamp, holds no two
  entries with the same timestamp, and has at most 50 entries; so the chart has at most
  50 rows.
\<close>

theorem merged_sequence_ordered_distinct_bounded:
  "sorted (map timestamp (unique dbData wsData))
   \<and> distinct (map timestamp (unique dbData wsData))
   \<and> length (unique dbData wsData) \<le> 50
   \<and> length (getChartData toLocaleTimeString sensorDataMap room readings) \<le> 50"
  by (simp add: unique_sorted unique_distinct unique_length getChartData_def)

theorem merged_sequence_ordered_distinct_bounded_witness:
  "sorted (map timestamp (unique
       [\<lparr>timestamp = 300, temperature = 41, humidity = 60\<rparr>,
        \<lparr>timestamp = 100, temperature = 40, humidity = 61\<rparr>]
       [\<lparr>timestamp = 100, temperature = 42, humidity = 62\<rparr>]))
   \<and> distinct (map timestamp (unique
       [\<lparr>timestamp = 300, temperature = 41, humidity = 60\<rparr>,
        \<lparr>timestamp = 100, temperature = 40, humidity = 61\<rparr>]
       [\<lparr>timestamp = 100, temperature = 42, humidity = 62\<rparr>]))
   \<and> length (unique
       [\<lparr>timestamp = 300, temperature = 41, humidity = 60\<rparr>,
        \<lparr>timestamp = 100, temperature = 40, humidity = 61\<rparr>]
       [\<lparr>timestamp = 100, temperature = 42, humidity = 62\<rparr>]) \<le> 50
   \<and> length (getChartData (\<lambda>t. ''12:00'') Map.empty ''room-1''
       [\<lparr>reading_id = ''a'', roomId = ''room-1'', reading_temperature = 400,
         reading_humidity = 610, reading_timestamp = 100\<rparr>]) \<le> 50"
  by (rule merged_sequence_ordered_distinct_bounded)

text \<open>
  Claim C2. The merge of \<open>getChartData\<close> equals the reference algorithm of the
  specification (concatenate, sort ascending by timestamp, drop every entry whose
  timestamp equals that of an earlier entry, keep the most recent 50). In the scenario of
  the specification, a room with no live point receives a push for \<open>t = 250\<close> and the
  historical fetch returns \<open>t = 100, 200, 300\<close>: the chart rows come out in the order
  \<open>100, 200, 250, 300\<close>.
\<close>

theorem merge_equals_reference:
  "unique batch liveAppends = merge_reference batch liveAppends
   \<and> map time (getChartData toLocaleTimeString
        (onSensorReading
           \<lparr>reading_id = i4, roomId = R, reading_temperature = a4, reading_humidity = b4,
            reading_timestamp = 250\<rparr> Map.empty) R
        [\<lparr>reading_id = i1, roomId = R, reading_temperature = a1, reading_humidity = b1,
          reading_timestamp = 100\<rparr>,
         \<lparr>reading_id = i2, roomId = R, reading_temperature = a2, reading_humidity = b2,
          reading_timestamp = 200\<rparr>,
         \<lparr>reading_id = i3, roomId = R, reading_temperature = a3, reading_humidity = b3,
          reading_timestamp = 300\<rparr>])
     = map toLocaleTimeString [100, 200, 250, 300]"
proof
  show "unique batch liveAppends = merge_reference batch liveAppends"
    by (simp add: unique_removeRepeats merge_reference_def mostRecent_sliceLast)
next
  show "map time (getChartData toLocaleTimeString
        (onSensorReading
           \<lparr>reading_id = i4, roomId = R, reading_temperature = a4, reading_humidity = b4,
            reading_timestamp = 250\<rparr> Map.empty) R
        [\<lparr>reading_id = i1, roomId = R, reading_temperature = a1, reading_humidity = b1,
          reading_timestamp = 100\<rparr>,
         \<lparr>reading_id = i2, roomId = R, reading_temperature = a2, reading_humidity = b2,
          reading_timestamp = 200\<rparr>,
         \<lparr>reading_id = i3, roomId = R, reading_temperature = a3, reading_humidity = b3,
          reading_timestamp = 300\<rparr>])
     = map toLocaleTimeString [100, 200, 250, 300]"
    by (simp add: getChartData_def onSensorReading_def toDataPoint_def unique_def combined_def
        filterWithIndex_def sliceLast_def firstOfTimestamp_def findIndex_def)
qed

theorem merge_equals_reference_witness:
  "unique [\<lparr>timestamp = 300, temperature = 41, humidity = 60\<rparr>,
           \<lparr>timestamp = 100, temperature = 40, humidity = 61\<rparr>]
          [\<lparr>timestamp = 100, temperature = 42, humidity = 62\<rparr>]
   = merge_reference [\<lparr>timestamp = 300, temperature = 41, humidity = 60\<rparr>,
           \<lparr>timestamp = 100, temperature = 40, humidity = 61\<rparr>]
          [\<lparr>timestamp = 100, temperature = 42, humidity = 62\<rparr>]"
  using merge_equals_reference [of
      "[\<lparr>timestamp = 300, temperature = 41, humidity = 60\<rparr>,
        \<lparr>timestamp = 100, temperature = 40, humidity = 61\<rparr>]"
      "[\<lparr>timestamp = 100, temperature = 42, humidity = 62\<rparr>]"]
  by (rule conjunct1)

text \<open>
  Claim C5. Merging the output of a merge with the empty set gives that output again,
  whichever of the two inputs the output is passed as.
\<close>

theorem merge_idempotent:
  "unique (unique A B) [] = unique A B \<and> unique [] (unique A B) = unique A B"
  using unique_fixed [OF unique_sorted unique_distinct unique_length, of A B] by simp

theorem merge_idempotent_witness:
  "unique (unique [\<lparr>timestamp = 300, temperature = 41, humidity = 60\<rparr>,
                   \<lparr>timestamp = 100, temperature = 40, humidity = 61\<rparr>]
                  [\<lparr>timestamp = 100, temperature = 42, humidity = 62\<rparr>]) []
   = unique [\<lparr>timestamp = 300, temperature = 41, humidity = 60\<rparr>,
             \<lparr>timestamp = 100, temperature = 40, humidity = 61\<rparr>]
            [\<lparr>timestamp = 100, temperature = 42, humidity = 62\<rparr>]"
  using merge_idempotent [of
      "[\<lparr>timestamp = 300, temperature = 41, humidity = 60\<rparr>,
        \<lparr>timestamp = 100, temperature = 40, humidity = 61\<rparr>]"
      "[\<lparr>timestamp = 100, temperature = 42, humidity = 62\<rparr>]"]
  by (rule conjunct1)

text \<open>
  Claim C10, as stated: when a historical reading and a live point carry the same
  timestamp, the merged output contains the historical reading. It fails where the
  50-entry limit cuts the timestamp off: with historical points at \<open>t = 0, 1\<close> and live
  points at \<open>t = 0, 2, 3, \<dots>, 50\<close> (fifty of them, the most the live window holds), the
  output holds \<open>t = 1, \<dots>, 50\<close> and neither of the two points at \<open>t = 0\<close>.
\<close>

theorem equal_timestamp_truncated_counterexample:
  "\<lparr>timestamp = 0, temperature = 20, humidity = 50\<rparr>
     \<notin> set (unique
         [\<lparr>timestamp = 0, temperature = 20, humidity = 50\<rparr>,
          \<lparr>timestamp = 1, temperature = 20, humidity = 50\<rparr>]
         (\<lparr>timestamp = 0, temperature = 21, humidity = 50\<rparr>
          # map (\<lambda>t. \<lparr>timestamp = t, temperature = 22, humidity = 50\<rparr>) [2..50]))"
proof
  assume mem: "\<lparr>timestamp = 0, temperature = 20, humidity = 50\<rparr>
     \<in> set (unique
         [\<lparr>timestamp = 0, temperature = 20, humidity = 50\<rparr>,
          \<lparr>timestamp = 1, temperature = 20, humidity = 50\<rparr>]
         (\<lparr>timestamp = 0, temperature = 21, humidity = 50\<rparr>
          # map (\<lambda>t. \<lparr>timestamp = t, temperature = 22, humidity = 50\<rparr>) [2..50]))"
  have stamps: "map timestamp (unique
         [\<lparr>timestamp = 0, temperature = 20, humidity = 50\<rparr>,
          \<lparr>timestamp = 1, temperature = 20, humidity = 50\<rparr>]
         (\<lparr>timestamp = 0, temperature = 21, humidity = 50\<rparr>
          # map (\<lambda>t. \<lparr>timestamp = t, temperature = 22, humidity = 50\<rparr>) [2..50]))
      = [1..50]"
    by code_simp
  from mem have "timestamp \<lparr>timestamp = 0, temperature = 20, humidity = 50\<rparr>
      \<in> set (map timestamp (unique
         [\<lparr>timestamp = 0, temperature = 20, humidity = 50\<rparr>,
          \<lparr>timestamp = 1, temperature = 20, humidity = 50\<rparr>]
         (\<lparr>timestamp = 0, temperature = 21, humidity = 50\<rparr>
          # map (\<lambda>t. \<lparr>timestamp = t, temperature = 22, humidity = 50\<rparr>) [2..50])))"
    by (simp only: set_map) (rule imageI)
  then have "(0::int) \<in> set [1..50]" by (simp only: stamps) simp
  then show False by simp
qed

text \<open>
  Claim C10, amended. Let a historical reading \<open>h\<close> be in the batch. Every entry of the
  merged output that carries the timestamp of \<open>h\<close> is the first point of the batch with
  that timestamp, so it has that historical point's temperature and humidity and never a
  live point's. Such an entry is present whenever the batch and the live points together
  hold at most 50 distinct timestamps.
\<close>

theorem equal_timestamp_historical_wins:
  assumes "h \<in> set dbData"
  shows "(\<forall>p \<in> set (unique dbData wsData). timestamp p = timestamp h \<longrightarrow>
            find (\<lambda>q. timestamp q = timestamp h) dbData = Some p)
       \<and> (card (timestamp ` set (dbData @ wsData)) \<le> 50 \<longrightarrow>
            (\<exists>p \<in> set (unique dbData wsData). timestamp p = timestamp h))"
proof (intro conjI ballI impI)
  fix p
  assume p: "p \<in> set (unique dbData wsData)" and eq: "timestamp p = timestamp h"
  from assms have "find (\<lambda>q. timestamp q = timestamp h) dbData \<noteq> None"
    by (rule find_member) simp
  then obtain x where x: "find (\<lambda>q. timestamp q = timestamp h) dbData = Some x"
    by (cases "find (\<lambda>q. timestamp q = timestamp h) dbData") simp_all
  from unique_first_of_inputs [OF p] eq
  have "find (\<lambda>q. timestamp q = timestamp h) (dbData @ wsData) = Some p" by simp
  with x show "find (\<lambda>q. timestamp q = timestamp h) dbData = Some p"
    by (simp add: find_append_first)
next
  assume "card (timestamp ` set (dbData @ wsData)) \<le> 50"
  then have "timestamp ` set (unique dbData wsData) = timestamp ` set (dbData @ wsData)"
    by (rule unique_keeps_all_when_few)
  moreover from assms have "timestamp h \<in> timestamp ` set (dbData @ wsData)" by simp
  ultimately have "timestamp h \<in> timestamp ` set (unique dbData wsData)" by simp
  then show "\<exists>p \<in> set (unique dbData wsData). timestamp p = timestamp h" by auto
qed

theorem equal_timestamp_historical_wins_witness:
  "\<lparr>timestamp = 100, temperature = 40, humidity = 61\<rparr>
     \<in> set [\<lparr>timestamp = 300, temperature = 41, humidity = 60\<rparr>,
             \<lparr>timestamp = 100, temperature = 40, humidity = 61\<rparr>]
   \<and> unique [\<lparr>timestamp = 300, temperature = 41, humidity = 60\<rparr>,
              \<lparr>timestamp = 100, temperature = 40, humidity = 61\<rparr>]
             [\<lparr>timestamp = 100, temperature = 42, humidity = 62\<rparr>]
       = [\<lparr>timestamp = 100, temperature = 40, humidity = 61\<rparr>,
          \<lparr>timestamp = 300, temperature = 41, humidity = 60\<rparr>]
   \<and> find (\<lambda>q. timestamp q = 100)
         [\<lparr>timestamp = 300, temperature = 41, humidity = 60\<rparr>,
          \<lparr>timestamp = 100, temperature = 40, humidity = 61\<rparr>]
       = Some \<lparr>timestamp = 100, temperature = 40, humidity = 61\<rparr>"
proof -
  have mem: "\<lparr>timestamp = 100, temperature = 40, humidity = 61\<rparr>
     \<in> set [\<lparr>timestamp = 300, temperature = 41, humidity = 60\<rparr>,
             \<lparr>timestamp = 100, temperature = 40, humidity = 61\<rparr>]" by simp
  have out: "unique [\<lparr>timestamp = 300, temperature = 41, humidity = 60\<rparr>,
              \<lparr>timestamp = 100, temperature = 40, humidity = 61\<rparr>]
             [\<lparr>timestamp = 100, temperature = 42, humidity = 62\<rparr>]
       = [\<lparr>timestamp = 100, temperature = 40, humidity = 61\<rparr>,
          \<lparr>timestamp = 300, temperature = 41, humidity = 60\<rparr>]"
    by (simp add: unique_def combined_def filterWithIndex_def sliceLast_def
        firstOfTimestamp_def findIndex_def)
  from equal_timestamp_historical_wins [OF mem,
      of "[\<lparr>timestamp = 100, temperature = 42, humidity = 62\<rparr>]"]
  have "\<forall>p \<in> set (unique [\<lparr>timestamp = 300, temperature = 41, humidity = 60\<rparr>,
              \<lparr>timestamp = 100, temperature = 40, humidity = 61\<rparr>]
             [\<lparr>timestamp = 100, temperature = 42, humidity = 62\<rparr>]).
          timestamp p = timestamp \<lparr>timestamp = 100, temperature = 40, humidity = 61\<rparr> \<longrightarrow>
          find (\<lambda>q. timestamp q = timestamp \<lparr>timestamp = 100, temperature = 40, humidity = 61\<rparr>)
            [\<lparr>timestamp = 300, temperature = 41, humidity = 60\<rparr>,
             \<lparr>timestamp = 100, temperature = 40, humidity = 61\<rparr>] = Some p"
    by (rule conjunct1)
  then have "find (\<lambda>q. timestamp q = 100)
         [\<lparr>timestamp = 300, temperature = 41, humidity = 60\<rparr>,
          \<lparr>timestamp = 100, temperature = 40, humidity = 61\<rparr>]
       = Some \<lparr>timestamp = 100, temperature = 40, humidity = 61\<rparr>"
    unfolding out by simp
  with mem out show ?thesis by (intro conjI)
qed

section \<open>Properties of the push channel\<close>

lemmas hook_defs = mount_def connect_def ws_onopen_def ws_onclose_def reconnectTimer_def
  clearTimeout_def ws_close_def cleanup_def rerender_def timeout_def Let_def

text \<open>
  Claim C3 says that the \<open>n\<close>-th close in a row schedules a delay of
  \<open>min (1000 * 2 ^ (n - 1)) 30000\<close> ms. What the hook does when six connections built by
  the effect fail in a row: the callback of each timer calls the \<open>connect\<close> of its own
  closure, which builds a socket whose handlers hold the old counter; the change of the
  counter runs the effect again, whose cleanup cancels the newest timer and closes that
  socket before the effect connects anew; the close of the replaced socket then
  schedules a delay from the old counter. The delays scheduled are
  \<open>1000, 1000, 2000, 1000, 4000, 1000, 8000, 1000, 16000, 1000, 30000\<close>, every timer that
  fires is one of 1000 ms, the timers of 2000 ms and more are all cancelled, and 13
  sockets have been built.
\<close>

theorem six_failures_schedule:
  "run mount
     [SocketCloses 0, TimerFires 0,
      SocketCloses 1, SocketCloses 2, TimerFires 1,
      SocketCloses 3, SocketCloses 4, TimerFires 3,
      SocketCloses 5, SocketCloses 6, TimerFires 5,
      SocketCloses 7, SocketCloses 8, TimerFires 7,
      SocketCloses 9, SocketCloses 10, TimerFires 9]
   = Some
      \<lparr>isConnected = False, reconnectAttempts = 6, connect_attempts = 6,
       sockets =
         [\<lparr>closure_attempts = 0, readyState = CLOSED\<rparr>,
          \<lparr>closure_attempts = 0, readyState = CLOSED\<rparr>,
          \<lparr>closure_attempts = 1, readyState = CLOSED\<rparr>,
          \<lparr>closure_attempts = 0, readyState = CLOSED\<rparr>,
          \<lparr>closure_attempts = 2, readyState = CLOSED\<rparr>,
          \<lparr>closure_attempts = 0, readyState = CLOSED\<rparr>,
          \<lparr>closure_attempts = 3, readyState = CLOSED\<rparr>,
          \<lparr>closure_attempts = 0, readyState = CLOSED\<rparr>,
          \<lparr>closure_attempts = 4, readyState = CLOSED\<rparr>,
          \<lparr>closure_attempts = 0, readyState = CLOSED\<rparr>,
          \<lparr>closure_attempts = 5, readyState = CLOSED\<rparr>,
          \<lparr>closure_attempts = 0, readyState = CLOSING\<rparr>,
          \<lparr>closure_attempts = 6, readyState = CONNECTING\<rparr>],
       timeouts =
         [\<lparr>delay = 1000, timer_attempts = 0, timer_state = Fired\<rparr>,
          \<lparr>delay = 1000, timer_attempts = 0, timer_state = Fired\<rparr>,
          \<lparr>delay = 2000, timer_attempts = 1, timer_state = Cleared\<rparr>,
          \<lparr>delay = 1000, timer_attempts = 0, timer_state = Fired\<rparr>,
          \<lparr>delay = 4000, timer_attempts = 2, timer_state = Cleared\<rparr>,
          \<lparr>delay = 1000, timer_attempts = 0, timer_state = Fired\<rparr>,
          \<lparr>delay = 8000, timer_attempts = 3, timer_state = Cleared\<rparr>,
          \<lparr>delay = 1000, timer_attempts = 0, timer_state = Fired\<rparr>,
          \<lparr>delay = 16000, timer_attempts = 4, timer_state = Cleared\<rparr>,
          \<lparr>delay = 1000, timer_attempts = 0, timer_state = Fired\<rparr>,
          \<lparr>delay = 30000, timer_attempts = 5, timer_state = Cleared\<rparr>],
       wsRef = Some 12, reconnectTimeoutRef = Some 10\<rparr>"
  by (simp add: hook_defs)

text \<open>
  Claim C4 says that after a successful open the next failure schedules 1000 ms. What
  the hook does when, after three failures, the socket built by the effect opens:
  \<open>ws.onopen\<close> sets the counter to 0, the change of the counter runs the effect again, and
  its cleanup closes the socket that has just opened; the handler of that socket holds
  the counter 3, so its close schedules 8000 ms. The counter is 0 after the open and
  after that close. Once the new socket has opened and the timer of 8000 ms has fired,
  the counter is 1 although the channel is connected.
\<close>

theorem close_after_open_schedule:
  "run mount
     [SocketCloses 0, TimerFires 0,
      SocketCloses 1, SocketCloses 2, TimerFires 1,
      SocketCloses 3, SocketCloses 4, TimerFires 3,
      SocketCloses 5, SocketOpens 6, SocketCloses 6]
   = Some
      \<lparr>isConnected = False, reconnectAttempts = 0, connect_attempts = 0,
       sockets =
         [\<lparr>closure_attempts = 0, readyState = CLOSED\<rparr>,
          \<lparr>closure_attempts = 0, readyState = CLOSED\<rparr>,
          \<lparr>closure_attempts = 1, readyState = CLOSED\<rparr>,
          \<lparr>closure_attempts = 0, readyState = CLOSED\<rparr>,
          \<lparr>closure_attempts = 2, readyState = CLOSED\<rparr>,
          \<lparr>closure_attempts = 0, readyState = CLOSED\<rparr>,
          \<lparr>closure_attempts = 3, readyState = CLOSED\<rparr>,
          \<lparr>closure_attempts = 0, readyState = CONNECTING\<rparr>],
       timeouts =
         [\<lparr>delay = 1000, timer_attempts = 0, timer_state = Fired\<rparr>,
          \<lparr>delay = 1000, timer_attempts = 0, timer_state = Fired\<rparr>,
          \<lparr>delay = 2000, timer_attempts = 1, timer_state = Cleared\<rparr>,
          \<lparr>delay = 1000, timer_attempts = 0, timer_state = Fired\<rparr>,
          \<lparr>delay = 4000, timer_attempts = 2, timer_state = Cleared\<rparr>,
          \<lparr>delay = 1000, timer_attempts = 0, timer_state = Cleared\<rparr>,
          \<lparr>delay = 8000, timer_attempts = 3, timer_state = Pending\<rparr>],
       wsRef = Some 7, reconnectTimeoutRef = Some 6\<rparr>
   \<and> map_option reconnectAttempts (run mount
     [SocketCloses 0, TimerFires 0,
      SocketCloses 1, SocketCloses 2, TimerFires 1,
      SocketCloses 3, SocketCloses 4, TimerFires 3,
      SocketCloses 5, SocketOpens 6]) = Some 0
   \<and> map_option (\<lambda>s. (isConnected s, reconnectAttempts s)) (run mount
     [SocketCloses 0, TimerFires 0,
      SocketCloses 1, SocketCloses 2, TimerFires 1,
      SocketCloses 3, SocketCloses 4, TimerFires 3,
      SocketCloses 5, SocketOpens 6, SocketCloses 6, SocketOpens 7, TimerFires 6]) = Some (True, 1)"
  by (simp add: hook_defs)

lemma deliver_absent: "deliver called None message = ([], Returned)"
  by (simp add: deliver_def)

lemma ws_onmessage_returns: "snd (ws_onmessage JSON_parse options event_data) = Returned"
  by (simp add: ws_onmessage_def split: option.splits prod.splits outcome.splits)

lemma ws_onmessage_unparsed:
  "JSON_parse event_data = None \<Longrightarrow> ws_onmessage JSON_parse options event_data = ([ConsoleError], Returned)"
  by (simp add: ws_onmessage_def)

lemma ws_onmessage_null:
  "JSON_parse event_data = Some JNull \<Longrightarrow> ws_onmessage JSON_parse options event_data = ([ConsoleError], Returned)"
  by (simp add: ws_onmessage_def dispatch_def)

lemma dispatch_unknown:
  assumes "message \<noteq> JNull"
    and "getProp ''type'' message \<noteq> Some (JString ''sensor_reading'')"
    and "getProp ''type'' message \<noteq> Some (JString ''alert'')"
    and "getProp ''type'' message \<noteq> Some (JString ''lifecycle_update'')"
    and "getProp ''type'' message \<noteq> Some (JString ''connected'')"
  shows "dispatch options message = ([], Returned)"
  using assms by (simp add: dispatch_def)

lemma dispatch_absent:
  "getProp ''type'' message = Some (JString ''sensor_reading'') \<Longrightarrow> onSensorReading_cb options = None
     \<Longrightarrow> dispatch options message = ([], Returned)"
  "getProp ''type'' message = Some (JString ''alert'') \<Longrightarrow> onAlert_cb options = None
     \<Longrightarrow> dispatch options message = ([], Returned)"
  "getProp ''type'' message = Some (JString ''lifecycle_update'') \<Longrightarrow> onLifecycleUpdate_cb options = None
     \<Longrightarrow> dispatch options message = ([], Returned)"
  by (auto simp: dispatch_def deliver_absent)


text \<open>
  Claim C6. The message handler never throws. It calls no callback when the message
  cannot be parsed, and none when the parsed message has a type other than
  \<open>sensor_reading\<close>, \<open>alert\<close>, \<open>lifecycle_update\<close>, \<open>connected\<close> (or no type at all, or is
  \<open>null\<close>). A message of a recognised kind whose callback is absent has no effect
  whatever.
\<close>

theorem unknown_or_malformed_message_dropped:
  "snd (ws_onmessage JSON_parse options event_data) = Returned
   \<and> (JSON_parse event_data = None \<longrightarrow>
        filter isCall (fst (ws_onmessage JSON_parse options event_data)) = [])
   \<and> (JSON_parse event_data = Some message
        \<and> getProp ''type'' message \<notin> {Some (JString ''sensor_reading''), Some (JString ''alert''),
                Some (JString ''lifecycle_update''), Some (JString ''connected'')} \<longrightarrow>
        filter isCall (fst (ws_onmessage JSON_parse options event_data)) = [])
   \<and> (JSON_parse event_data = Some message
        \<and> (getProp ''type'' message = Some (JString ''sensor_reading'') \<and> onSensorReading_cb options = None
           \<or> getProp ''type'' message = Some (JString ''alert'') \<and> onAlert_cb options = None
           \<or> getProp ''type'' message = Some (JString ''lifecycle_update'')
               \<and> onLifecycleUpdate_cb options = None) \<longrightarrow>
        fst (ws_onmessage JSON_parse options event_data) = [])"
proof (intro conjI impI)
  show "snd (ws_onmessage JSON_parse options event_data) = Returned"
    by (rule ws_onmessage_returns)
next
  assume "JSON_parse event_data = None"
  then show "filter isCall (fst (ws_onmessage JSON_parse options event_data)) = []"
    by (simp add: ws_onmessage_unparsed)
next
  assume a: "JSON_parse event_data = Some message
        \<and> getProp ''type'' message \<notin> {Some (JString ''sensor_reading''), Some (JString ''alert''),
                Some (JString ''lifecycle_update''), Some (JString ''connected'')}"
  show "filter isCall (fst (ws_onmessage JSON_parse options event_data)) = []"
  proof (cases "message = JNull")
    case True
    with a show ?thesis by (simp add: ws_onmessage_null)
  next
    case False
    with a have "dispatch options message = ([], Returned)"
      by (intro dispatch_unknown) simp_all
    with a show ?thesis by (simp add: ws_onmessage_def)
  qed
next
  assume a: "JSON_parse event_data = Some message
        \<and> (getProp ''type'' message = Some (JString ''sensor_reading'') \<and> onSensorReading_cb options = None
           \<or> getProp ''type'' message = Some (JString ''alert'') \<and> onAlert_cb options = None
           \<or> getProp ''type'' message = Some (JString ''lifecycle_update'')
               \<and> onLifecycleUpdate_cb options = None)"
  then have "dispatch options message = ([], Returned)"
    using dispatch_absent [of message options] by blast
  with a show "fst (ws_onmessage JSON_parse options event_data) = []"
    by (simp add: ws_onmessage_def)
qed

theorem unknown_or_malformed_message_dropped_witness:
  "ws_onmessage (\<lambda>text. None)
       \<lparr>onSensorReading_cb = Some (\<lambda>d. Threw), onAlert_cb = Some (\<lambda>d. Threw),
        onLifecycleUpdate_cb = Some (\<lambda>d. Threw)\<rparr> ''{'' = ([ConsoleError], Returned)
   \<and> filter isCall (fst (ws_onmessage
       (\<lambda>text. Some (JObject [(''type'', JString ''unexpected_kind''), (''data'', JNumber 1)]))
       \<lparr>onSensorReading_cb = Some (\<lambda>d. Threw), onAlert_cb = Some (\<lambda>d. Threw),
        onLifecycleUpdate_cb = Some (\<lambda>d. Threw)\<rparr> ''m'')) = []
   \<and> fst (ws_onmessage
       (\<lambda>text. Some (JObject [(''type'', JString ''alert''), (''data'', JNumber 1)]))
       \<lparr>onSensorReading_cb = Some (\<lambda>d. Threw), onAlert_cb = None,
        onLifecycleUpdate_cb = Some (\<lambda>d. Threw)\<rparr> ''m'') = []"
proof (intro conjI)
  show "ws_onmessage (\<lambda>text. None)
       \<lparr>onSensorReading_cb = Some (\<lambda>d. Threw), onAlert_cb = Some (\<lambda>d. Threw),
        onLifecycleUpdate_cb = Some (\<lambda>d. Threw)\<rparr> ''{'' = ([ConsoleError], Returned)"
    by (simp add: ws_onmessage_def)
next
  show "filter isCall (fst (ws_onmessage
       (\<lambda>text. Some (JObject [(''type'', JString ''unexpected_kind''), (''data'', JNumber 1)]))
       \<lparr>onSensorReading_cb = Some (\<lambda>d. Threw), onAlert_cb = Some (\<lambda>d. Threw),
        onLifecycleUpdate_cb = Some (\<lambda>d. Threw)\<rparr> ''m'')) = []"
    using unknown_or_malformed_message_dropped [of
        "\<lambda>text. Some (JObject [(''type'', JString ''unexpected_kind''), (''data'', JNumber 1)])"
        "\<lparr>onSensorReading_cb = Some (\<lambda>d. Threw), onAlert_cb = Some (\<lambda>d. Threw),
          onLifecycleUpdate_cb = Some (\<lambda>d. Threw)\<rparr>" "''m''"
        "JObject [(''type'', JString ''unexpected_kind''), (''data'', JNumber 1)]"]
    by simp
next
  show "fst (ws_onmessage
       (\<lambda>text. Some (JObject [(''type'', JString ''alert''), (''data'', JNumber 1)]))
       \<lparr>onSensorReading_cb = Some (\<lambda>d. Threw), onAlert_cb = None,
        onLifecycleUpdate_cb = Some (\<lambda>d. Threw)\<rparr> ''m'') = []"
    using unknown_or_malformed_message_dropped [of
        "\<lambda>text. Some (JObject [(''type'', JString ''alert''), (''data'', JNumber 1)])"
        "\<lparr>onSensorReading_cb = Some (\<lambda>d. Threw), onAlert_cb = None,
          onLifecycleUpdate_cb = Some (\<lambda>d. Threw)\<rparr>" "''m''"
        "JObject [(''type'', JString ''alert''), (''data'', JNumber 1)]"]
    by simp
qed


section \<open>Properties of the request cache, the polling fetchers and the requests\<close>


lemma invalidateQueries_listed:
  "qc key = Some q \<Longrightarrow> key \<in> set keySet
     \<Longrightarrow> invalidateQueries keySet qc key = Some (q\<lparr>isInvalidated := True\<rparr>)"
  by (simp add: invalidateQueries_def)

lemma invalidateQueries_missing: "qc key = None \<Longrightarrow> invalidateQueries keySet qc key = None"
  by (simp add: invalidateQueries_def)

lemma invalidateQueries_other:
  "key \<notin> set keySet \<Longrightarrow> invalidateQueries keySet qc key = qc key"
  by (simp add: invalidateQueries_def split: option.splits)

lemma readQuery_after_invalidate:
  assumes "backend key = Resolved v"
  shows "fst (readQuery backend key (invalidateQueries [key] qc)) = Some v"
proof (cases "qc key")
  case None
  then have "invalidateQueries [key] qc key = None" by (rule invalidateQueries_missing)
  with assms show ?thesis by (simp add: readQuery_def storeFetched_def)
next
  case (Some q)
  then have "invalidateQueries [key] qc key = Some (q\<lparr>isInvalidated := True\<rparr>)"
    by (rule invalidateQueries_listed) simp
  with assms show ?thesis by (simp add: readQuery_def storeFetched_def)
qed

lemma mutate_resolved:
  "updateRoomStatus_mutate isUnauthorizedError ROOMS_LIST (Resolved r) st
   = st\<lparr>toasts := toasts st @ [StatusUpdatedToast],
        queryClient := invalidateQueries [[ROOMS_LIST]] (queryClient st)\<rparr>"
  by (simp add: updateRoomStatus_mutate_def updateRoomStatus_onSuccess_def)

lemma mutate_rejected_cache:
  "queryClient (updateRoomStatus_mutate isUnauthorizedError ROOMS_LIST (Rejected error) st) = queryClient st"
  by (simp add: updateRoomStatus_mutate_def updateRoomStatus_onError_def)

lemma mutate_rejected_toast:
  "toasts (updateRoomStatus_mutate isUnauthorizedError ROOMS_LIST (Rejected error) st)
   = toasts st @ [if isUnauthorizedError error then UnauthorizedToast
                  else UpdateFailedToast (if error \<noteq> [] then ErrorMessage error else DefaultFailureText)]"
  by (simp add: updateRoomStatus_mutate_def updateRoomStatus_onError_def)

text \<open>
  Claim C7. The keys are invalidated exactly when the success of the mutation has been
  observed. After a successful room status mutation the cache is the old one with the
  rooms key marked stale, and a read of the rooms key then returns the value the backend
  answers with. After a failed mutation the cache is unchanged and the error reaches the
  user as a toast (the message of the error, or the notice that the session is gone). A
  fresh entry of the rooms key is stale after the mutation if and only if the response
  was a success.
\<close>

theorem invalidation_follows_success:
  "queryClient (updateRoomStatus_mutate isUnauthorizedError ROOMS_LIST (Resolved r) st)
     = invalidateQueries [[ROOMS_LIST]] (queryClient st)
   \<and> (backend [ROOMS_LIST] = Resolved v \<longrightarrow>
        fst (readQuery backend [ROOMS_LIST]
          (queryClient (updateRoomStatus_mutate isUnauthorizedError ROOMS_LIST (Resolved r) st))) = Some v)
   \<and> queryClient (updateRoomStatus_mutate isUnauthorizedError ROOMS_LIST (Rejected error) st)
     = queryClient st
   \<and> toasts (updateRoomStatus_mutate isUnauthorizedError ROOMS_LIST (Rejected error) st)
     = toasts st @ [if isUnauthorizedError error then UnauthorizedToast
                    else UpdateFailedToast (if error \<noteq> [] then ErrorMessage error else DefaultFailureText)]
   \<and> (queryClient st [ROOMS_LIST] = Some q \<and> \<not> isInvalidated q \<longrightarrow>
        ((\<exists>q'. queryClient (updateRoomStatus_mutate isUnauthorizedError ROOMS_LIST response st) [ROOMS_LIST]
                = Some q' \<and> isInvalidated q')
         \<longleftrightarrow> (\<exists>r'. response = Resolved r')))"
proof (intro conjI impI)
  show "queryClient (updateRoomStatus_mutate isUnauthorizedError ROOMS_LIST (Resolved r) st)
     = invalidateQueries [[ROOMS_LIST]] (queryClient st)"
    by (simp add: mutate_resolved)
next
  assume "backend [ROOMS_LIST] = Resolved v"
  then show "fst (readQuery backend [ROOMS_LIST]
          (queryClient (updateRoomStatus_mutate isUnauthorizedError ROOMS_LIST (Resolved r) st))) = Some v"
    by (simp add: mutate_resolved readQuery_after_invalidate)
next
  show "queryClient (updateRoomStatus_mutate isUnauthorizedError ROOMS_LIST (Rejected error) st)
     = queryClient st"
    by (rule mutate_rejected_cache)
next
  show "toasts (updateRoomStatus_mutate isUnauthorizedError ROOMS_LIST (Rejected error) st)
     = toasts st @ [if isUnauthorizedError error then UnauthorizedToast
                    else UpdateFailedToast (if error \<noteq> [] then ErrorMessage error else DefaultFailureText)]"
    by (rule mutate_rejected_toast)
next
  assume fresh: "queryClient st [ROOMS_LIST] = Some q \<and> \<not> isInvalidated q"
  show "(\<exists>q'. queryClient (updateRoomStatus_mutate isUnauthorizedError ROOMS_LIST response st) [ROOMS_LIST]
                = Some q' \<and> isInvalidated q')
         \<longleftrightarrow> (\<exists>r'. response = Resolved r')"
  proof (cases response)
    case (Resolved r')
    from fresh have "invalidateQueries [[ROOMS_LIST]] (queryClient st) [ROOMS_LIST]
        = Some (q\<lparr>isInvalidated := True\<rparr>)"
      by (intro invalidateQueries_listed) simp_all
    with Resolved show ?thesis by (simp add: mutate_resolved)
  next
    case (Rejected e)
    with fresh show ?thesis by (simp add: mutate_rejected_cache)
  qed
qed

theorem invalidation_follows_success_witness:
  "fst (readQuery (\<lambda>key. Resolved ''occupied'') [''/api/rooms/'']
      (queryClient (updateRoomStatus_mutate (\<lambda>e. False) ''/api/rooms/'' (Resolved ())
         \<lparr>queryClient = [[''/api/rooms/''] \<mapsto> \<lparr>cached = ''available'', isInvalidated = False\<rparr>],
          toasts = [], redirect = None\<rparr>))) = Some ''occupied''
   \<and> queryClient (updateRoomStatus_mutate (\<lambda>e. False) ''/api/rooms/'' (Rejected ''500: down'')
         \<lparr>queryClient = [[''/api/rooms/''] \<mapsto> \<lparr>cached = ''available'', isInvalidated = False\<rparr>],
          toasts = [], redirect = None\<rparr>)
     = [[''/api/rooms/''] \<mapsto> \<lparr>cached = ''available'', isInvalidated = False\<rparr>]
   \<and> toasts (updateRoomStatus_mutate (\<lambda>e. False) ''/api/rooms/'' (Rejected ''500: down'')
         \<lparr>queryClient = [[''/api/rooms/''] \<mapsto> \<lparr>cached = ''available'', isInvalidated = False\<rparr>],
          toasts = [], redirect = None\<rparr>)
     = [UpdateFailedToast (ErrorMessage ''500: down'')]
   \<and> (\<exists>q'. queryClient (updateRoomStatus_mutate (\<lambda>e. False) ''/api/rooms/'' (Resolved ())
         \<lparr>queryClient = [[''/api/rooms/''] \<mapsto> \<lparr>cached = ''available'', isInvalidated = False\<rparr>],
          toasts = [], redirect = None\<rparr>) [''/api/rooms/''] = Some q' \<and> isInvalidated q')"
proof -
  note inst = invalidation_follows_success [of "\<lambda>e. False" "''/api/rooms/''" "()"
      "\<lparr>queryClient = [[''/api/rooms/''] \<mapsto> \<lparr>cached = ''available'', isInvalidated = False\<rparr>],
        toasts = [], redirect = None\<rparr>"
      "\<lambda>key. Resolved ''occupied''" "''occupied''" "''500: down''"
      "\<lparr>cached = ''available'', isInvalidated = False\<rparr>" "Resolved ()"]
  from inst [THEN conjunct2, THEN conjunct1] have a: "fst (readQuery (\<lambda>key. Resolved ''occupied'') [''/api/rooms/'']
      (queryClient (updateRoomStatus_mutate (\<lambda>e. False) ''/api/rooms/'' (Resolved ())
         \<lparr>queryClient = [[''/api/rooms/''] \<mapsto> \<lparr>cached = ''available'', isInvalidated = False\<rparr>],
          toasts = [], redirect = None\<rparr>))) = Some ''occupied''"
    by simp
  from inst [THEN conjunct2, THEN conjunct2, THEN conjunct1] have b: "queryClient (updateRoomStatus_mutate (\<lambda>e. False) ''/api/rooms/'' (Rejected ''500: down'')
         \<lparr>queryClient = [[''/api/rooms/''] \<mapsto> \<lparr>cached = ''available'', isInvalidated = False\<rparr>],
          toasts = [], redirect = None\<rparr>)
     = [[''/api/rooms/''] \<mapsto> \<lparr>cached = ''available'', isInvalidated = False\<rparr>]"
    by simp
  from inst [THEN conjunct2, THEN conjunct2, THEN conjunct2, THEN conjunct1] have c: "toasts (updateRoomStatus_mutate (\<lambda>e. False) ''/api/rooms/'' (Rejected ''500: down'')
         \<lparr>queryClient = [[''/api/rooms/''] \<mapsto> \<lparr>cached = ''available'', isInvalidated = False\<rparr>],
          toasts = [], redirect = None\<rparr>)
     = [UpdateFailedToast (ErrorMessage ''500: down'')]"
    by simp
  from inst [THEN conjunct2, THEN conjunct2, THEN conjunct2, THEN conjunct2] have d: "\<exists>q'. queryClient (updateRoomStatus_mutate (\<lambda>e. False) ''/api/rooms/'' (Resolved ())
         \<lparr>queryClient = [[''/api/rooms/''] \<mapsto> \<lparr>cached = ''available'', isInvalidated = False\<rparr>],
          toasts = [], redirect = None\<rparr>) [''/api/rooms/''] = Some q' \<and> isInvalidated q'"
    by simp
  from a b c d show ?thesis by (intro conjI)
qed













text \<open>
  Claim C9 says that every outbound request carries a bearer credential, and that a
  request is not sent when there is none. What the code does: \<open>dismissAlert\<close> sends its
  request whatever the identity state is, with no header at all, hence with no
  credential, also when the answer to it is an error status; \<open>handlePhoneSearch\<close> sends
  its request with the header \<open>Content-Type\<close> only.
\<close>

theorem dismissAlert_sends_no_credential:
  "fst (dismissAlert fetch alertId alerts) = [dismissAlert_request alertId]
   \<and> headers (dismissAlert_request alertId) = []
   \<and> bearerCredential (dismissAlert_request alertId) = None
   \<and> fst (dismissAlert (\<lambda>request. Response False None) ''a1'' [])
       = [\<lparr>http_method = ''PATCH'', url = ''/api/alerts/a1/dismiss'', headers = [], body = None\<rparr>]
   \<and> map headers (handlePhoneSearch ''/api/customers/verify_pin/'' ''01012345678'' ''1234'')
       = [[(''Content-Type'', ''application/json'')]]
   \<and> map bearerCredential (handlePhoneSearch ''/api/customers/verify_pin/'' ''01012345678'' ''1234'') = [None]"
  by (simp add: dismissAlert_def dismissAlert_request_def bearerCredential_def handlePhoneSearch_def
      handlePhoneSearch_request_def split: fetched.splits)


end
